theory Spec2Isabelle
  imports Main "HOL-Library.AList"
begin

section \<open>Python values used by the scanner\<close>

text \<open>
  The development embeds \<^verbatim>\<open>src/main.py\<close> (class \<^verbatim>\<open>DependencyScanner\<close>,
  \<^verbatim>\<open>scan_repository\<close> and the loop of \<^verbatim>\<open>main\<close>). Strings are character
  lists; a character stands for the code point of the same number, so the model covers
  text in the range 0..255. Every exception of the source is a value \<open>Error msg\<close> on
  the left of a sum type.
\<close>

datatype error = Error string

text \<open>
  The value \<^verbatim>\<open>json.loads\<close> returns. The scanner never inspects a number, so
  integers stand for all numeric values. A Python \<^verbatim>\<open>dict\<close> is the list of its
  items in insertion order.
\<close>

datatype json =
    JNull
  | JBool bool
  | JNum int
  | JString string
  | JArray "json list"
  | JObject "(string \<times> json) list"

subsection \<open>String methods\<close>

definition dquote :: char where
  "dquote = CHR 0x22"

definition newline :: char where
  "newline = CHR 0x0A"

text \<open>\<^verbatim>\<open>str.isspace\<close> on one character, for the code points below 256.\<close>

definition isspace :: "char \<Rightarrow> bool" where
  "isspace c = (c \<in> set [CHR 0x09, CHR 0x0A, CHR 0x0B, CHR 0x0C, CHR 0x0D,
                          CHR 0x1C, CHR 0x1D, CHR 0x1E, CHR 0x1F, CHR 0x20,
                          CHR 0x85, CHR 0xA0])"

text \<open>\<^verbatim>\<open>s.strip(chars)\<close>: characters of the given class go from both ends.\<close>

definition strip_chars :: "(char \<Rightarrow> bool) \<Rightarrow> string \<Rightarrow> string" where
  "strip_chars P s = rev (dropWhile P (rev (dropWhile P s)))"

definition strip :: "string \<Rightarrow> string" where
  "strip s = strip_chars isspace s"

text \<open>\<^verbatim>\<open>s.startswith(prefix)\<close>.\<close>

fun startswith :: "string \<Rightarrow> string \<Rightarrow> bool" where
  "startswith s [] = True"
| "startswith [] (p # ps) = False"
| "startswith (c # cs) (p # ps) = (c = p \<and> startswith cs ps)"

text \<open>\<^verbatim>\<open>sub in s\<close> for two strings.\<close>

fun str_contains :: "string \<Rightarrow> string \<Rightarrow> bool" where
  "str_contains [] sub = (sub = [])"
| "str_contains (c # cs) sub = (startswith (c # cs) sub \<or> str_contains cs sub)"

text \<open>\<^verbatim>\<open>s.split(sep)\<close> for a separator of one character.\<close>

fun str_split :: "char \<Rightarrow> string \<Rightarrow> string list" where
  "str_split sep [] = [[]]"
| "str_split sep (c # cs) =
     (if c = sep then [] # str_split sep cs
      else (case str_split sep cs of
              [] \<Rightarrow> [[c]]
            | p # ps \<Rightarrow> (c # p) # ps))"

text \<open>
  \<^verbatim>\<open>f.readlines()\<close> on text already read with universal newlines: each line keeps
  its terminating newline, and no empty line follows a final newline.
\<close>

fun readlines :: "string \<Rightarrow> string list" where
  "readlines [] = []"
| "readlines (c # cs) =
     (if c = newline then [c] # readlines cs
      else (case readlines cs of
              [] \<Rightarrow> [[c]]
            | l # ls \<Rightarrow> (c # l) # ls))"

text \<open>\<^verbatim>\<open>str.lower\<close>, for the code points below 256.\<close>

definition lower_char :: "char \<Rightarrow> char" where
  "lower_char c =
     (let n = (of_char c :: nat)
      in if (65 \<le> n \<and> n \<le> 90) \<or> (192 \<le> n \<and> n \<le> 222 \<and> n \<noteq> 215)
         then char_of (n + 32) else c)"

definition lower :: "string \<Rightarrow> string" where
  "lower s = map lower_char s"

section \<open>The scanner's data\<close>

text \<open>A dependency is the dict \<^verbatim>\<open>{'name': ..., 'version': ...}\<close>.\<close>

record dependency =
  name :: string
  version :: json

section \<open>The yarn.lock parser (lines 118 to 139)\<close>

text \<open>
  Lines 126 to 131: the value assigned to \<^verbatim>\<open>current_package\<close> from a header's
  text after the quotes are stripped. Indexing a list out of range raises.
\<close>

definition header_package :: "string \<Rightarrow> error + string" where
  "header_package package_line =
     (case str_split (CHR ''@'') package_line of
        [] \<Rightarrow> Inl (Error ''list index out of range'')
      | p0 # ps \<Rightarrow>
          if startswith p0 ''@'' then
            (case ps of
               [] \<Rightarrow> Inl (Error ''list index out of range'')
             | p1 # _ \<Rightarrow>
                 (case str_split (CHR '','') p1 of
                    [] \<Rightarrow> Inl (Error ''list index out of range'')
                  | seg # _ \<Rightarrow> Inr (CHR ''@'' # seg)))
          else Inr p0)"

text \<open>
  Lines 122 to 131 for one line of the file: \<open>None\<close> when the line assigns nothing
  (it is no header, or has no \<^verbatim>\<open>@\<close>).
\<close>

definition line_package :: "string \<Rightarrow> error + string option" where
  "line_package raw =
     (let line = strip raw in
      if startswith line [dquote] then
        (let package_line = strip_chars (\<lambda>c. c = dquote) line in
         if CHR ''@'' \<in> set package_line then
           (case header_package package_line of
              Inl e \<Rightarrow> Inl e
            | Inr current_package \<Rightarrow> Inr (Some current_package))
         else Inr None)
      else Inr None)"

text \<open>The loop body with its test of lines 133 and 134.\<close>

definition yarn_lock_line :: "string list \<Rightarrow> string \<Rightarrow> error + string list" where
  "yarn_lock_line dependencies raw =
     (case line_package raw of
        Inl e \<Rightarrow> Inl e
      | Inr None \<Rightarrow> Inr dependencies
      | Inr (Some current_package) \<Rightarrow>
          Inr (if current_package \<noteq> [] \<and> current_package \<notin> set dependencies
               then dependencies @ [current_package] else dependencies))"

fun yarn_lock_loop :: "string list \<Rightarrow> string list \<Rightarrow> error + string list" where
  "yarn_lock_loop dependencies [] = Inr dependencies"
| "yarn_lock_loop dependencies (raw # raws) =
     (case yarn_lock_line dependencies raw of
        Inl e \<Rightarrow> Inl e
      | Inr dependencies' \<Rightarrow> yarn_lock_loop dependencies' raws)"

definition parse_yarn_lock :: "string \<Rightarrow> error + string list" where
  "parse_yarn_lock content = yarn_lock_loop [] (str_split newline content)"

text \<open>
  Lines 136 to 139: the list handed to \<^verbatim>\<open>extend\<close>; an exception in the loop
  reaches the handler of line 142 and nothing is appended.
\<close>

definition yarn_lock_dependencies :: "string \<Rightarrow> dependency list" where
  "yarn_lock_dependencies content =
     (case parse_yarn_lock content of
        Inl e \<Rightarrow> []
      | Inr names \<Rightarrow> map (\<lambda>dep. \<lparr>name = dep, version = JString ''unknown''\<rparr>) names)"

section \<open>Paths and the world of one scan\<close>

text \<open>
  A \<^verbatim>\<open>pathlib.Path\<close> is the list of its components below the root:
  \<^verbatim>\<open>p.parent\<close> drops the last one, \<^verbatim>\<open>p.name\<close> is the last one (empty for
  the root), \<^verbatim>\<open>d / n\<close> adds one.
\<close>

type_synonym py_path = "string list"

definition parent :: "py_path \<Rightarrow> py_path" where
  "parent p = butlast p"

definition path_name :: "py_path \<Rightarrow> string" where
  "path_name p = (if p = [] then [] else last p)"

definition joinpath :: "py_path \<Rightarrow> string \<Rightarrow> py_path" where
  "joinpath d n = d @ [n]"

text \<open>The answer of \<^verbatim>\<open>requests.get\<close>: the status code and what \<^verbatim>\<open>response.json()\<close> gives.\<close>

record response =
  status_code :: int
  body :: "error + json"

text \<open>
  What a scan reads from outside the program: the library parser \<^verbatim>\<open>json.loads\<close>,
  the working tree (\<^verbatim>\<open>Path.exists\<close>, \<^verbatim>\<open>Path.is_file\<close>, \<^verbatim>\<open>open(...).read()\<close> with
  newlines translated, \<^verbatim>\<open>Path.rglob('*')\<close>), \<^verbatim>\<open>git.Repo.clone_from\<close>, the advisory
  request for a package name, and the name of the temporary directory.
\<close>

record env =
  json_loads :: "string \<Rightarrow> error + json"
  path_exists :: "py_path \<Rightarrow> error + bool"
  is_file :: "py_path \<Rightarrow> bool"
  read_text :: "py_path \<Rightarrow> error + string"
  rglob :: "py_path \<Rightarrow> error + py_path list"
  clone_from :: "string \<Rightarrow> py_path \<Rightarrow> error option"
  advisories :: "string \<Rightarrow> error + response"
  temp_dir :: py_path

section \<open>The scanner object\<close>

text \<open>The strings \<^verbatim>\<open>'npm'\<close> and \<^verbatim>\<open>'yarn'\<close> that detection returns; \<^verbatim>\<open>None\<close> is \<open>None\<close>.\<close>

datatype package_manager = Npm | Yarn

record dependency_set =
  npm :: "dependency list"
  yarn :: "dependency list"
  python :: "dependency list"

text \<open>
  \<^verbatim>\<open>self.package_managers\<close> maps a directory to the stored result of detection, so
  \<open>Some None\<close> is a stored \<^verbatim>\<open>None\<close> and \<open>None\<close> is a missing key.
\<close>

record scanner =
  repo_url :: string
  repo_name :: string
  repo_path :: "py_path option"
  package_managers :: "py_path \<rightharpoonup> package_manager option"
  dependencies :: dependency_set

definition DependencyScanner_init :: "string \<Rightarrow> string \<Rightarrow> scanner" where
  "DependencyScanner_init url nm =
     \<lparr>repo_url = url, repo_name = nm, repo_path = None,
      package_managers = Map.empty,
      dependencies = \<lparr>npm = [], yarn = [], python = []\<rparr>\<rparr>"

text \<open>\<^verbatim>\<open>self.dependencies[package_manager].extend(new)\<close> and the same for \<^verbatim>\<open>'python'\<close>.\<close>

definition extend_dependencies :: "package_manager \<Rightarrow> dependency list \<Rightarrow> scanner \<Rightarrow> scanner" where
  "extend_dependencies package_manager new self =
     (case package_manager of
        Npm \<Rightarrow> self\<lparr>dependencies := (dependencies self)\<lparr>npm := npm (dependencies self) @ new\<rparr>\<rparr>
      | Yarn \<Rightarrow> self\<lparr>dependencies := (dependencies self)\<lparr>yarn := yarn (dependencies self) @ new\<rparr>\<rparr>)"

definition extend_python :: "dependency list \<Rightarrow> scanner \<Rightarrow> scanner" where
  "extend_python new self =
     self\<lparr>dependencies := (dependencies self)\<lparr>python := python (dependencies self) @ new\<rparr>\<rparr>"

section \<open>Detection of the package manager (lines 31 to 60)\<close>

text \<open>
  Line 52 on the loaded value. Only a dict can answer \<open>True\<close>: on a list or a string
  the subscript raises once \<^verbatim>\<open>in\<close> succeeded, on other values \<^verbatim>\<open>in\<close> itself
  raises, and a value of the key that is no string has no \<^verbatim>\<open>lower\<close>.
\<close>

definition package_manager_is_yarn :: "json \<Rightarrow> error + bool" where
  "package_manager_is_yarn package_data =
     (case package_data of
        JObject items \<Rightarrow>
          (case map_of items ''packageManager'' of
             None \<Rightarrow> Inr False
           | Some (JString s) \<Rightarrow> Inr (str_contains (lower s) ''yarn'')
           | Some _ \<Rightarrow> Inl (Error ''object has no attribute lower''))
      | JArray xs \<Rightarrow>
          if JString ''packageManager'' \<in> set xs
          then Inl (Error ''list indices must be integers'') else Inr False
      | JString s \<Rightarrow>
          if str_contains s ''packageManager''
          then Inl (Error ''string indices must be integers'') else Inr False
      | _ \<Rightarrow> Inl (Error ''argument is not iterable''))"

text \<open>
  Lines 49 to 56: an exception while reading or inspecting \<^verbatim>\<open>package.json\<close> is
  printed and the answer is \<^verbatim>\<open>'npm'\<close>.
\<close>

definition inspect_package_json :: "env \<Rightarrow> py_path \<Rightarrow> package_manager" where
  "inspect_package_json env package_json =
     (case read_text env package_json of
        Inl e \<Rightarrow> Npm
      | Inr content \<Rightarrow>
          (case json_loads env content of
             Inl e \<Rightarrow> Npm
           | Inr package_data \<Rightarrow>
               (case package_manager_is_yarn package_data of
                  Inl e \<Rightarrow> Npm
                | Inr b \<Rightarrow> if b then Yarn else Npm)))"

text \<open>An exception of \<^verbatim>\<open>exists\<close> reaches the handler of line 58: the answer is \<^verbatim>\<open>None\<close>.\<close>

definition detect_package_manager :: "env \<Rightarrow> py_path \<Rightarrow> package_manager option" where
  "detect_package_manager env directory =
     (case path_exists env directory of
        Inl e \<Rightarrow> None
      | Inr d \<Rightarrow>
          if \<not> d then None
          else
            (case path_exists env (joinpath directory ''yarn.lock'') of
               Inl e \<Rightarrow> None
             | Inr yarn_lock \<Rightarrow>
                 if yarn_lock then Some Yarn
                 else
                   (case path_exists env (joinpath directory ''package-lock.json'') of
                      Inl e \<Rightarrow> None
                    | Inr package_lock \<Rightarrow>
                        if package_lock then Some Npm
                        else
                          (case path_exists env (joinpath directory ''package.json'') of
                             Inl e \<Rightarrow> None
                           | Inr package_json \<Rightarrow>
                               if package_json
                               then Some (inspect_package_json env (joinpath directory ''package.json''))
                               else None))))"

section \<open>The package.json parser (lines 82 to 102)\<close>

text \<open>\<^verbatim>\<open>d.get(key, default)\<close> on the items of a dict.\<close>

definition dict_get :: "(string \<times> json) list \<Rightarrow> string \<Rightarrow> json \<Rightarrow> json" where
  "dict_get items key dflt = (case map_of items key of None \<Rightarrow> dflt | Some v \<Rightarrow> v)"

text \<open>The operand of \<^verbatim>\<open>**\<close> in a dict display must be a mapping.\<close>

definition unpack_mapping :: "json \<Rightarrow> error + (string \<times> json) list" where
  "unpack_mapping v =
     (case v of
        JObject items \<Rightarrow> Inr items
      | _ \<Rightarrow> Inl (Error ''object is not a mapping''))"

text \<open>
  \<^verbatim>\<open>{**a, **b}\<close>: the items of \<open>a\<close>, then of \<open>b\<close>, are stored one by one into an
  empty dict; storing under a key already there replaces its value in place.
\<close>

definition dict_display :: "(string \<times> json) list \<Rightarrow> (string \<times> json) list \<Rightarrow> (string \<times> json) list" where
  "dict_display a b = fold (\<lambda>(k, v) d. AList.update k v d) (a @ b) []"

definition package_json_dependencies :: "(string \<Rightarrow> error + json) \<Rightarrow> string \<Rightarrow> error + dependency list" where
  "package_json_dependencies loads content =
     (if strip content = [] then Inr []
      else
        (case loads content of
           Inl e \<Rightarrow> Inl e
         | Inr package_data \<Rightarrow>
             (case package_data of
                JObject items \<Rightarrow>
                  (case unpack_mapping (dict_get items ''dependencies'' (JObject [])) of
                     Inl e \<Rightarrow> Inl e
                   | Inr deps \<Rightarrow>
                       (case unpack_mapping (dict_get items ''devDependencies'' (JObject [])) of
                          Inl e \<Rightarrow> Inl e
                        | Inr dev \<Rightarrow>
                            Inr (map (\<lambda>(n, v). \<lparr>name = n, version = v\<rparr>) (dict_display deps dev))))
              | _ \<Rightarrow> Inr [])))"

section \<open>The requirements parser (lines 147 to 156)\<close>

definition requirements :: "string \<Rightarrow> string list" where
  "requirements content =
     map strip (filter (\<lambda>line. strip line \<noteq> [] \<and> \<not> startswith line ''#'') (readlines content))"

definition requirements_dependencies :: "string \<Rightarrow> dependency list" where
  "requirements_dependencies content =
     map (\<lambda>req. \<lparr>name = req, version = JString ''unknown''\<rparr>) (requirements content)"

section \<open>parse\_dependencies (lines 62 to 163)\<close>

text \<open>
  The dict that \<^verbatim>\<open>find_dependency_files\<close> builds for a manifest. The type is
  \<open>None\<close> when \<^verbatim>\<open>_get_file_type\<close> falls off its end.
\<close>

record file_info =
  path :: py_path
  file_type :: "string option"
  directory :: py_path

text \<open>
  The three file parsers with their handlers: an exception while opening, reading or
  parsing is printed and nothing is appended (lines 107 to 110, 142 and 159). Line 98
  skips the \<^verbatim>\<open>extend\<close> for an empty dict.
\<close>

definition parse_package_json :: "env \<Rightarrow> py_path \<Rightarrow> package_manager \<Rightarrow> scanner \<Rightarrow> scanner" where
  "parse_package_json env file_path package_manager self =
     (case read_text env file_path of
        Inl e \<Rightarrow> self
      | Inr content \<Rightarrow>
          (case package_json_dependencies (json_loads env) content of
             Inl e \<Rightarrow> self
           | Inr new \<Rightarrow>
               if new \<noteq> [] then extend_dependencies package_manager new self else self))"

definition parse_yarn_lock_file :: "env \<Rightarrow> py_path \<Rightarrow> scanner \<Rightarrow> scanner" where
  "parse_yarn_lock_file env file_path self =
     (case read_text env file_path of
        Inl e \<Rightarrow> self
      | Inr content \<Rightarrow> extend_dependencies Yarn (yarn_lock_dependencies content) self)"

definition parse_requirements :: "env \<Rightarrow> py_path \<Rightarrow> scanner \<Rightarrow> scanner" where
  "parse_requirements env file_path self =
     (case read_text env file_path of
        Inl e \<Rightarrow> self
      | Inr content \<Rightarrow> extend_python (requirements_dependencies content) self)"

text \<open>Lines 72 and 73: detection runs only when the directory is no key of the cache.\<close>

definition remember_package_manager :: "env \<Rightarrow> py_path \<Rightarrow> scanner \<Rightarrow> scanner" where
  "remember_package_manager env dir self =
     (if package_managers self dir = None
      then self\<lparr>package_managers := (package_managers self)(dir \<mapsto> detect_package_manager env dir)\<rparr>
      else self)"

text \<open>
  The branches of lines 70 to 160. With a stored \<open>None\<close> the method returns at line
  78; the first case stands for the \<^verbatim>\<open>KeyError\<close> of line 75, which cannot arise
  after line 73. A python manifest is parsed without a look at the cache.
\<close>

definition parse_dependencies :: "env \<Rightarrow> file_info \<Rightarrow> scanner \<Rightarrow> scanner" where
  "parse_dependencies env info self =
     (let file_path = path info; dir = parent file_path in
      if file_type info = Some ''npm'' \<or> file_type info = Some ''yarn'' then
        (let self' = remember_package_manager env dir self in
         case package_managers self' dir of
           None \<Rightarrow> self'
         | Some None \<Rightarrow> self'
         | Some (Some package_manager) \<Rightarrow>
             if path_name file_path = ''package.json''
             then parse_package_json env file_path package_manager self'
             else if path_name file_path = ''yarn.lock''
             then (if package_manager = Yarn then parse_yarn_lock_file env file_path self' else self')
             else self')
      else if file_type info = Some ''python'' then parse_requirements env file_path self
      else self)"

section \<open>Advisory lookup (lines 165 to 198)\<close>

record vulnerability =
  vuln_dependency :: string
  vuln_type :: string
  vuln_version :: json
  vuln_advisories :: json

text \<open>The truth value Python gives a loaded JSON value.\<close>

fun truthy :: "json \<Rightarrow> bool" where
  "truthy JNull = False"
| "truthy (JBool b) = b"
| "truthy (JNum n) = (n \<noteq> 0)"
| "truthy (JString s) = (s \<noteq> [])"
| "truthy (JArray xs) = (xs \<noteq> [])"
| "truthy (JObject items) = (items \<noteq> [])"

text \<open>
  The inner loop over one list. Neither the request nor \<^verbatim>\<open>response.json()\<close> stands
  in a \<^verbatim>\<open>try\<close>: an exception of either leaves the method.
\<close>

fun check_deps :: "env \<Rightarrow> string \<Rightarrow> dependency list \<Rightarrow> vulnerability list \<Rightarrow> error + vulnerability list" where
  "check_deps env dep_type [] vulnerabilities = Inr vulnerabilities"
| "check_deps env dep_type (dep # deps) vulnerabilities =
     (case advisories env (name dep) of
        Inl e \<Rightarrow> Inl e
      | Inr response \<Rightarrow>
          if status_code response = 200 then
            (case body response of
               Inl e \<Rightarrow> Inl e
             | Inr vulns \<Rightarrow>
                 if truthy vulns
                 then check_deps env dep_type deps
                        (vulnerabilities @
                           [\<lparr>vuln_dependency = name dep, vuln_type = dep_type,
                             vuln_version = version dep, vuln_advisories = vulns\<rparr>])
                 else check_deps env dep_type deps vulnerabilities)
          else check_deps env dep_type deps vulnerabilities)"

fun check_items :: "env \<Rightarrow> (string \<times> dependency list) list \<Rightarrow> vulnerability list \<Rightarrow> error + vulnerability list" where
  "check_items env [] vulnerabilities = Inr vulnerabilities"
| "check_items env ((dep_type, deps) # rest) vulnerabilities =
     (if deps = [] then check_items env rest vulnerabilities
      else
        (case check_deps env dep_type deps vulnerabilities of
           Inl e \<Rightarrow> Inl e
         | Inr vulnerabilities' \<Rightarrow> check_items env rest vulnerabilities'))"

text \<open>\<^verbatim>\<open>self.dependencies.items()\<close>, in the order the keys were written at line 25.\<close>

definition dependency_items :: "dependency_set \<Rightarrow> (string \<times> dependency list) list" where
  "dependency_items ds = [(''npm'', npm ds), (''yarn'', yarn ds), (''python'', python ds)]"

definition check_vulnerabilities :: "env \<Rightarrow> scanner \<Rightarrow> error + vulnerability list" where
  "check_vulnerabilities env self = check_items env (dependency_items (dependencies self)) []"

section \<open>Cloning and discovery (lines 200 to 232)\<close>

definition clone_repository :: "env \<Rightarrow> py_path \<Rightarrow> scanner \<Rightarrow> error + scanner" where
  "clone_repository env target_dir self =
     (let self' = self\<lparr>repo_path := Some target_dir\<rparr> in
      case clone_from env (repo_url self') target_dir of
        Some e \<Rightarrow> Inl e
      | None \<Rightarrow> Inr self')"

definition get_file_type :: "string \<Rightarrow> string option" where
  "get_file_type filename =
     (if filename = ''package.json'' then Some ''npm''
      else if filename = ''yarn.lock'' then Some ''yarn''
      else if filename = ''requirements.txt'' then Some ''python''
      else None)"

definition find_dependency_files :: "env \<Rightarrow> scanner \<Rightarrow> error + file_info list" where
  "find_dependency_files env self =
     (case repo_path self of
        None \<Rightarrow> Inl (Error ''NoneType object has no attribute rglob'')
      | Some root \<Rightarrow>
          (case rglob env root of
             Inl e \<Rightarrow> Inl e
           | Inr paths \<Rightarrow>
               Inr (map (\<lambda>p. \<lparr>path = p, file_type = get_file_type (path_name p), directory = parent p\<rparr>)
                      (filter (\<lambda>p. is_file env p \<and>
                                    path_name p \<in> set [''package.json'', ''yarn.lock'', ''requirements.txt''])
                         paths))))"

section \<open>scan\_repository and the loop of main (lines 263 to 320)\<close>

text \<open>The values under the keys of a result dict.\<close>

datatype result_value =
    RString string
  | RDependencies dependency_set
  | RVulnerabilities "vulnerability list"

type_synonym scan_result = "(string \<times> result_value) list"

text \<open>
  The body of the \<^verbatim>\<open>try\<close>, lines 267 to 274. Creating and removing the temporary
  directory around it are taken to succeed, and the exceptions are those of class
  \<^verbatim>\<open>Exception\<close>, which the handler of line 281 catches.
\<close>

definition scan_stages :: "env \<Rightarrow> string \<Rightarrow> string \<Rightarrow> error + (dependency_set \<times> vulnerability list)" where
  "scan_stages env url nm =
     (case clone_repository env (temp_dir env) (DependencyScanner_init url nm) of
        Inl e \<Rightarrow> Inl e
      | Inr cloned \<Rightarrow>
          (case find_dependency_files env cloned of
             Inl e \<Rightarrow> Inl e
           | Inr dependency_files \<Rightarrow>
               (let parsed = fold (parse_dependencies env) dependency_files cloned in
                case check_vulnerabilities env parsed of
                  Inl e \<Rightarrow> Inl e
                | Inr vulnerabilities \<Rightarrow> Inr (dependencies parsed, vulnerabilities))))"

definition scan_repository :: "env \<Rightarrow> string \<Rightarrow> string \<Rightarrow> scan_result" where
  "scan_repository env url nm =
     (case scan_stages env url nm of
        Inr (deps, vulnerabilities) \<Rightarrow>
          [(''repo_name'', RString nm),
           (''dependencies'', RDependencies deps),
           (''vulnerabilities'', RVulnerabilities vulnerabilities)]
      | Inl (Error msg) \<Rightarrow>
          [(''repo_name'', RString nm), (''error'', RString msg)])"

text \<open>An entry of the repository listing, with the two keys the loop reads.\<close>

record github_repo =
  gh_name :: string
  gh_clone_url :: string

text \<open>
  Lines 312 to 320. \<open>world repo\<close> is what the scan of that repository finds outside
  the program; \<open>excluded\<close> is \<^verbatim>\<open>EXCLUDED_REPOS\<close>.
\<close>

fun main_loop :: "(github_repo \<Rightarrow> env) \<Rightarrow> string list \<Rightarrow> github_repo list \<Rightarrow> scan_result list \<Rightarrow> scan_result list" where
  "main_loop world excluded [] results = results"
| "main_loop world excluded (repo # repos) results =
     (if gh_name repo \<in> set excluded then main_loop world excluded repos results
      else main_loop world excluded repos
             (results @ [scan_repository (world repo) (gh_clone_url repo) (gh_name repo)]))"

section \<open>Reference notions and example inputs\<close>

text \<open>Keep the first occurrence of every element, in order.\<close>

fun first_occurrences :: "'a list \<Rightarrow> 'a list" where
  "first_occurrences [] = []"
| "first_occurrences (x # xs) = x # filter (\<lambda>y. y \<noteq> x) (first_occurrences xs)"

text \<open>The non-empty names that the lines of a yarn.lock assign, one per assigning line.\<close>

definition proposed_names :: "string list \<Rightarrow> string list" where
  "proposed_names raws =
     concat (map (\<lambda>raw. case line_package raw of
                           Inr (Some n) \<Rightarrow> (if n = [] then [] else [n])
                         | _ \<Rightarrow> []) raws)"

definition babel_lock :: string where
  "babel_lock = dquote # ''@babel/core@^7.0.0, @babel/core@^7.1.0'' @ [dquote, CHR '':'']"

definition lodash_lock :: string where
  "lodash_lock =
     dquote # ''lodash@^4.17.0'' @ [dquote, CHR '':'', newline] @
     ''  version '' @ dquote # ''4.17.21'' @ [dquote, newline, newline] @
     dquote # ''lodash@^4.16.0'' @ [dquote, CHR '':'', newline] @
     ''  version '' @ dquote # ''4.16.6'' @ [dquote, newline]"

definition mixed_lock :: string where
  "mixed_lock =
     dquote # ''@types/node@^18.0.0'' @ [dquote, CHR '':'', newline] @
     dquote # ''left-pad@^1.3.0'' @ [dquote, CHR '':'', newline]"

text \<open>
  The package.json at the path can be read, loads to an object, and the string under
  its key \<^verbatim>\<open>packageManager\<close> holds \<^verbatim>\<open>yarn\<close> in some mix of cases.
\<close>

definition package_manager_field_has_yarn :: "env \<Rightarrow> py_path \<Rightarrow> bool" where
  "package_manager_field_has_yarn env package_json =
     (case read_text env package_json of
        Inl e \<Rightarrow> False
      | Inr content \<Rightarrow>
          (case json_loads env content of
             Inr (JObject items) \<Rightarrow>
               (case map_of items ''packageManager'' of
                  Some (JString s) \<Rightarrow> str_contains (lower s) ''yarn''
                | _ \<Rightarrow> False)
           | _ \<Rightarrow> False))"

text \<open>
  The key-wise union of two dicts in which the second wins: the items of \<open>a\<close> in
  order, each with the value \<open>b\<close> has for its key when \<open>b\<close> has the key, then the
  items of \<open>b\<close> whose keys \<open>a\<close> lacks.
\<close>

definition override :: "(string \<times> json) list \<Rightarrow> string \<times> json \<Rightarrow> string \<times> json" where
  "override b item = (fst item, case map_of b (fst item) of None \<Rightarrow> snd item | Some v \<Rightarrow> v)"

definition key_union :: "(string \<times> json) list \<Rightarrow> (string \<times> json) list \<Rightarrow> (string \<times> json) list" where
  "key_union a b = map (override b) a @ filter (\<lambda>item. fst item \<notin> fst ` set a) b"

text \<open>Example file contents, a parser table for them, and a working tree built from files.\<close>

definition plain_requirements :: string where
  "plain_requirements = ''requests==2.0'' @ [newline, newline] @ ''# comment'' @ [newline] @ ''flask'' @ [newline]"

definition indented_requirements :: string where
  "indented_requirements = ''requests==2.0'' @ [newline, newline] @ ''  # comment'' @ [newline] @ ''flask'' @ [newline]"

definition collision_json :: string where
  "collision_json = ''{'' @ [dquote] @ ''dependencies'' @ [dquote] @ '':{'' @ [dquote] @ ''a'' @ [dquote] @ '':'' @ [dquote] @ ''1.0.0'' @ [dquote] @ ''},'' @ [dquote] @ ''devDependencies'' @ [dquote] @ '':{'' @ [dquote] @ ''a'' @ [dquote] @ '':'' @ [dquote] @ ''2.0.0'' @ [dquote] @ ''}}''"

definition yarn_field_json :: string where
  "yarn_field_json = ''{'' @ [dquote] @ ''packageManager'' @ [dquote] @ '': '' @ [dquote] @ ''Yarn@3.0.0'' @ [dquote] @ ''}''"

definition npm_field_json :: string where
  "npm_field_json = ''{'' @ [dquote] @ ''packageManager'' @ [dquote] @ '': '' @ [dquote] @ ''npm@9.0.0'' @ [dquote] @ ''}''"

definition example_loads :: "string \<Rightarrow> error + json" where
  "example_loads s =
     (if s = collision_json then
        Inr (JObject [(''dependencies'', JObject [(''a'', JString ''1.0.0'')]),
                      (''devDependencies'', JObject [(''a'', JString ''2.0.0'')])])
      else if s = yarn_field_json then Inr (JObject [(''packageManager'', JString ''Yarn@3.0.0'')])
      else if s = npm_field_json then Inr (JObject [(''packageManager'', JString ''npm@9.0.0'')])
      else if s = ''{}'' then Inr (JObject [])
      else if s = ''[1]'' then Inr (JArray [JNum 1])
      else Inl (Error ''JSONDecodeError''))"


definition tree_env :: "(py_path \<times> string) list \<Rightarrow> (string \<Rightarrow> error + response) \<Rightarrow> env" where
  "tree_env files lookup =
     \<lparr>json_loads = example_loads,
      path_exists = (\<lambda>p. Inr (list_ex (\<lambda>f. take (length p) f = p) (map fst files))),
      is_file = (\<lambda>p. map_of files p \<noteq> None),
      read_text = (\<lambda>p. case map_of files p of
                          None \<Rightarrow> Inl (Error ''No such file or directory'')
                        | Some content \<Rightarrow> Inr content),
      rglob = (\<lambda>root. Inr (filter (\<lambda>f. take (length root) f = root) (map fst files))),
      clone_from = (\<lambda>url target_dir. None),
      advisories = lookup,
      temp_dir = [''tmp'']\<rparr>"

text \<open>
  Answers of the advisory source: an advisory for \<^verbatim>\<open>lodash\<close>, two refusals whose
  bodies are no JSON, and an empty list for every other name.
\<close>

definition example_lookup :: "string \<Rightarrow> error + response" where
  "example_lookup package =
     (if package = ''lodash'' then
        Inr \<lparr>status_code = 200,
             body = Inr (JArray [JObject [(''ghsa_id'', JString ''GHSA-35jh-r3h4-6jhm'')]])\<rparr>
      else if package = ''flask'' then
        Inr \<lparr>status_code = 404, body = Inl (Error ''Expecting value'')\<rparr>
      else if package = ''requests==2.0'' then
        Inr \<lparr>status_code = 503, body = Inl (Error ''Expecting value'')\<rparr>
      else Inr \<lparr>status_code = 200, body = Inr (JArray [])\<rparr>)"

definition example_tree :: "(py_path \<times> string) list" where
  "example_tree =
     [([''tmp'', ''web'', ''yarn.lock''], lodash_lock),
      ([''tmp'', ''web'', ''package-lock.json''], ''{}''),
      ([''tmp'', ''api'', ''package-lock.json''], ''{}''),
      ([''tmp'', ''api'', ''package.json''], collision_json),
      ([''tmp'', ''ui'', ''package.json''], yarn_field_json),
      ([''tmp'', ''cli'', ''package.json''], npm_field_json),
      ([''tmp'', ''docs'', ''requirements.txt''], plain_requirements)]"

definition example_env :: env where
  "example_env = tree_env example_tree example_lookup"








text \<open>Lines 187 to 196 for one dependency whose request returned.\<close>

definition advisory_match :: "env \<Rightarrow> string \<Rightarrow> dependency \<Rightarrow> vulnerability option" where
  "advisory_match env dep_type dep =
     (case advisories env (name dep) of
        Inl e \<Rightarrow> None
      | Inr response \<Rightarrow>
          if status_code response = 200 then
            (case body response of
               Inl e \<Rightarrow> None
             | Inr vulns \<Rightarrow>
                 if truthy vulns
                 then Some \<lparr>vuln_dependency = name dep, vuln_type = dep_type,
                            vuln_version = version dep, vuln_advisories = vulns\<rparr>
                 else None)
          else None)"

text \<open>The request for the dependency returns a response, and a 200 response decodes.\<close>

definition lookup_returns :: "env \<Rightarrow> dependency \<Rightarrow> bool" where
  "lookup_returns env dep =
     (case advisories env (name dep) of
        Inl e \<Rightarrow> False
      | Inr response \<Rightarrow>
          if status_code response = 200
          then (case body response of Inl e \<Rightarrow> False | Inr vulns \<Rightarrow> True)
          else True)"

definition all_dependencies :: "scanner \<Rightarrow> dependency list" where
  "all_dependencies self =
     npm (dependencies self) @ yarn (dependencies self) @ python (dependencies self)"

definition expected_matches :: "env \<Rightarrow> scanner \<Rightarrow> vulnerability list" where
  "expected_matches env self =
     List.map_filter (advisory_match env ''npm'') (npm (dependencies self)) @
     List.map_filter (advisory_match env ''yarn'') (yarn (dependencies self)) @
     List.map_filter (advisory_match env ''python'') (python (dependencies self))"

text \<open>The scanner as it is when the advisory lookup starts.\<close>

definition parsed_scanner :: "env \<Rightarrow> string \<Rightarrow> string \<Rightarrow> file_info list \<Rightarrow> scanner" where
  "parsed_scanner env url nm dependency_files =
     fold (parse_dependencies env) dependency_files
       ((DependencyScanner_init url nm)\<lparr>repo_path := Some (temp_dir env)\<rparr>)"

text \<open>
  Worlds in which the clone fails, in which every advisory request raises, and a
  listing of three repositories of which \<open>skipped\<close> is excluded.
\<close>

definition failing_clone_env :: env where
  "failing_clone_env = example_env\<lparr>clone_from := (\<lambda>url target_dir. Some (Error ''repository not found''))\<rparr>"

definition unreachable_env :: env where
  "unreachable_env = example_env\<lparr>advisories := (\<lambda>package. Inl (Error ''Connection refused''))\<rparr>"

definition example_world :: "github_repo \<Rightarrow> env" where
  "example_world repo = (if gh_name repo = ''broken'' then failing_clone_env else example_env)"

definition example_repos :: "github_repo list" where
  "example_repos =
     [\<lparr>gh_name = ''broken'', gh_clone_url = ''https://example.org/broken.git''\<rparr>,
      \<lparr>gh_name = ''skipped'', gh_clone_url = ''https://example.org/skipped.git''\<rparr>,
      \<lparr>gh_name = ''good'', gh_clone_url = ''https://example.org/good.git''\<rparr>]"

text \<open>
  What discovery finds in the example tree, and the one advisory match of its scan.
\<close>

definition example_files :: "file_info list" where
  "example_files =
     [\<lparr>path = [''tmp'', ''web'', ''yarn.lock''], file_type = Some ''yarn'',
       directory = [''tmp'', ''web'']\<rparr>,
      \<lparr>path = [''tmp'', ''api'', ''package.json''], file_type = Some ''npm'',
       directory = [''tmp'', ''api'']\<rparr>,
      \<lparr>path = [''tmp'', ''ui'', ''package.json''], file_type = Some ''npm'',
       directory = [''tmp'', ''ui'']\<rparr>,
      \<lparr>path = [''tmp'', ''cli'', ''package.json''], file_type = Some ''npm'',
       directory = [''tmp'', ''cli'']\<rparr>,
      \<lparr>path = [''tmp'', ''docs'', ''requirements.txt''], file_type = Some ''python'',
       directory = [''tmp'', ''docs'']\<rparr>]"

definition good_url :: string where
  "good_url = ''https://example.org/good.git''"

definition lodash_match :: vulnerability where
  "lodash_match =
     \<lparr>vuln_dependency = ''lodash'', vuln_type = ''yarn'', vuln_version = JString ''unknown'',
      vuln_advisories = JArray [JObject [(''ghsa_id'', JString ''GHSA-35jh-r3h4-6jhm'')]]\<rparr>"

section \<open>Properties of the yarn.lock parser\<close>

lemma str_split_not_Nil: "str_split sep s \<noteq> []"
  by (induction s) (auto split: list.splits)

lemma str_split_hd_no_sep: "str_split sep s = p # ps \<Longrightarrow> sep \<notin> set p"
  by (induction s arbitrary: p ps) (auto split: if_splits list.splits)

lemma hd_str_split_no_sep: "sep \<notin> set (hd (str_split sep s))"
  using str_split_hd_no_sep [of sep s] by (cases "str_split sep s") (auto simp: str_split_not_Nil)

text \<open>
  The piece before the first \<^verbatim>\<open>@\<close> holds no \<^verbatim>\<open>@\<close>, so the test of line 127
  is never true and line 131 always supplies the name.
\<close>

lemma header_package_eq:
  "header_package package_line = Inr (hd (str_split (CHR ''@'') package_line))"
proof (cases "str_split (CHR ''@'') package_line")
  case Nil
  then show ?thesis by (simp add: str_split_not_Nil)
next
  case (Cons p0 ps)
  then have "CHR ''@'' \<notin> set p0" by (rule str_split_hd_no_sep)
  then have "\<not> startswith p0 ''@''" by (cases p0) auto
  with Cons show ?thesis by (simp add: header_package_def)
qed

lemma line_package_total: "\<exists>r. line_package raw = Inr r"
  by (simp add: line_package_def Let_def header_package_eq)

lemma line_package_no_at: "line_package raw = Inr (Some n) \<Longrightarrow> CHR ''@'' \<notin> set n"
  by (auto simp: line_package_def Let_def header_package_eq hd_str_split_no_sep split: if_splits)

lemma first_occurrences_set [simp]: "set (first_occurrences xs) = set xs"
  by (induction xs) auto

lemma first_occurrences_distinct [simp]: "distinct (first_occurrences xs)"
  by (induction xs) auto

text \<open>A later repeat is dropped, a new element goes to the end.\<close>

lemma first_occurrences_snoc:
  "first_occurrences (xs @ [x]) =
     (if x \<in> set xs then first_occurrences xs else first_occurrences xs @ [x])"
  by (induction xs) auto

lemma yarn_lock_loop_eq:
  "yarn_lock_loop acc raws =
     Inr (acc @ filter (\<lambda>n. n \<notin> set acc) (first_occurrences (proposed_names raws)))"
proof (induction raws arbitrary: acc)
  case Nil
  then show ?case by (simp add: proposed_names_def)
next
  case (Cons raw raws)
  obtain r where r: "line_package raw = Inr r" using line_package_total by blast
  show ?case
  proof (cases r)
    case None
    with r Cons show ?thesis by (simp add: yarn_lock_line_def proposed_names_def)
  next
    case (Some n)
    have pn: "proposed_names (raw # raws) = (if n = [] then [] else [n]) @ proposed_names raws"
      using r Some by (simp add: proposed_names_def)
    show ?thesis
    proof (cases "n \<noteq> [] \<and> n \<notin> set acc")
      case True
      then have "yarn_lock_loop acc (raw # raws) = yarn_lock_loop (acc @ [n]) raws"
        using r Some by (simp add: yarn_lock_line_def)
      also have "\<dots> = Inr ((acc @ [n]) @ filter (\<lambda>m. m \<notin> set (acc @ [n]))
                                  (first_occurrences (proposed_names raws)))"
        by (rule Cons.IH)
      finally show ?thesis using True pn
        by (simp add: conj_commute cong: filter_cong)
    next
      case False
      then have "yarn_lock_loop acc (raw # raws) = yarn_lock_loop acc raws"
        using r Some by (auto simp: yarn_lock_line_def)
      then show ?thesis using False pn Cons.IH [of acc]
        by (auto intro!: filter_cong)
    qed
  qed
qed

text \<open>The loop never raises: the parser always returns a list of names.\<close>

lemma parse_yarn_lock_eq:
  "parse_yarn_lock content =
     Inr (first_occurrences (proposed_names (str_split newline content)))"
  by (simp add: parse_yarn_lock_def yarn_lock_loop_eq)

lemma yarn_lock_dependencies_eq:
  "yarn_lock_dependencies content =
     map (\<lambda>dep. \<lparr>name = dep, version = JString ''unknown''\<rparr>)
       (first_occurrences (proposed_names (str_split newline content)))"
  by (simp add: yarn_lock_dependencies_def parse_yarn_lock_eq)

lemma proposed_names_nonempty: "n \<in> set (proposed_names raws) \<Longrightarrow> n \<noteq> []"
  by (auto simp: proposed_names_def split: sum.splits option.splits if_splits)

lemma proposed_names_no_at: "n \<in> set (proposed_names raws) \<Longrightarrow> CHR ''@'' \<notin> set n"
  by (auto simp: proposed_names_def dest: line_package_no_at [OF sym]
           split: sum.splits option.splits if_splits)

text \<open>No name the parser emits holds an \<^verbatim>\<open>@\<close>: a scoped name is never produced.\<close>

lemma yarn_lock_never_scoped:
  "d \<in> set (yarn_lock_dependencies content) \<Longrightarrow> CHR ''@'' \<notin> set (name d)"
  by (auto simp: yarn_lock_dependencies_eq dest: proposed_names_no_at)

text \<open>
  Claim C2. A header whose token begins with \<^verbatim>\<open>@\<close> should give one dependency
  named \<^verbatim>\<open>@\<close> plus the first comma-delimited segment after it. On the header
  \<^verbatim>\<open>"@babel/core@^7.0.0, @babel/core@^7.1.0":\<close> the parser emits nothing: the piece
  before the first \<^verbatim>\<open>@\<close> is empty, the scoped branch of line 129 is not taken, and
  the empty name is dropped at line 133.
\<close>

theorem yarn_lock_scoped_header_dropped: "yarn_lock_dependencies babel_lock = []"
  by code_simp

text \<open>
  Claim C5. Within one parse of a yarn.lock the emitted names are the proposed names
  with the first occurrence of each kept and later repeats dropped, no name occurs
  twice, and every emitted dependency has the version \<^verbatim>\<open>"unknown"\<close>.
\<close>

theorem yarn_lock_first_occurrence:
  "map name (yarn_lock_dependencies content)
     = first_occurrences (proposed_names (str_split newline content))
   \<and> distinct (map name (yarn_lock_dependencies content))
   \<and> map version (yarn_lock_dependencies content)
     = replicate (length (yarn_lock_dependencies content)) (JString ''unknown'')"
  by (simp add: yarn_lock_dependencies_eq comp_def map_replicate_const)

text \<open>
  The two headers \<^verbatim>\<open>"lodash@^4.17.0":\<close> and \<^verbatim>\<open>"lodash@^4.16.0":\<close> propose the
  name twice and give exactly one dependency.
\<close>

theorem yarn_lock_first_occurrence_witness:
  "yarn_lock_dependencies lodash_lock = [\<lparr>name = ''lodash'', version = JString ''unknown''\<rparr>]
   \<and> proposed_names (str_split newline lodash_lock) = [''lodash'', ''lodash'']"
proof -
  have p: "proposed_names (str_split newline lodash_lock) = [''lodash'', ''lodash'']"
    by code_simp
  have "map name (yarn_lock_dependencies lodash_lock) = [''lodash'']"
    and "map version (yarn_lock_dependencies lodash_lock)
           = replicate (length (yarn_lock_dependencies lodash_lock)) (JString ''unknown'')"
    using yarn_lock_first_occurrence [of lodash_lock] by (simp_all add: p)
  then have "yarn_lock_dependencies lodash_lock = [\<lparr>name = ''lodash'', version = JString ''unknown''\<rparr>]"
    by (cases "yarn_lock_dependencies lodash_lock") auto
  with p show ?thesis by simp
qed

text \<open>
  Claim C10. Every dependency the yarn.lock parser emits has a non-empty name: a header
  whose extracted name is empty contributes nothing.
\<close>

theorem yarn_lock_names_nonempty:
  "\<forall>d \<in> set (yarn_lock_dependencies content). name d \<noteq> []"
  by (auto simp: yarn_lock_dependencies_eq dest: proposed_names_nonempty)

text \<open>A file whose first header extracts the empty name and whose second extracts \<^verbatim>\<open>left-pad\<close>.\<close>

theorem yarn_lock_names_nonempty_witness:
  "yarn_lock_dependencies mixed_lock = [\<lparr>name = ''left-pad'', version = JString ''unknown''\<rparr>]
   \<and> line_package (dquote # ''@types/node@^18.0.0'' @ [dquote, CHR '':'']) = Inr (Some [])
   \<and> name \<lparr>name = ''left-pad'', version = JString ''unknown''\<rparr> \<noteq> []"
proof -
  have e: "yarn_lock_dependencies mixed_lock = [\<lparr>name = ''left-pad'', version = JString ''unknown''\<rparr>]"
    by code_simp
  have l: "line_package (dquote # ''@types/node@^18.0.0'' @ [dquote, CHR '':'']) = Inr (Some [])"
    by code_simp
  show ?thesis using yarn_lock_names_nonempty [of mixed_lock] e l by simp
qed

section \<open>Properties of the requirements and package.json parsers\<close>

text \<open>
  Claim C3. The requirements parser should drop every line whose trimmed form starts
  with \<^verbatim>\<open>#\<close>. Line 151 tests the untrimmed line, so an indented comment is
  kept and recorded, trimmed, as a dependency name.
\<close>

theorem requirements_indented_comment_kept:
  "requirements_dependencies indented_requirements =
     [\<lparr>name = ''requests==2.0'', version = JString ''unknown''\<rparr>,
      \<lparr>name = ''# comment'', version = JString ''unknown''\<rparr>,
      \<lparr>name = ''flask'', version = JString ''unknown''\<rparr>]"
  by code_simp

text \<open>The four lines of the specification's example give the two expected records.\<close>

lemma requirements_plain_example:
  "requirements_dependencies plain_requirements =
     [\<lparr>name = ''requests==2.0'', version = JString ''unknown''\<rparr>,
      \<lparr>name = ''flask'', version = JString ''unknown''\<rparr>]"
  by code_simp

lemma map_of_rev_distinct: "distinct (map fst xs) \<Longrightarrow> map_of (rev xs) = map_of xs"
proof (induction xs)
  case Nil
  then show ?case by simp
next
  case (Cons x xs)
  obtain k v where x: "x = (k, v)" by (cases x)
  from Cons.prems x have k: "map_of xs k = None"
    by (simp add: map_of_eq_None_iff)
  have "map_of (rev (x # xs)) = map_of [x] ++ map_of (rev xs)" by simp
  also have "\<dots> = map_of [x] ++ map_of xs" using Cons by simp
  also have "\<dots> = map_of (x # xs)"
    using k x by (auto simp: map_add_def fun_eq_iff split: option.splits)
  finally show ?case .
qed

lemma fold_update_map_of:
  "map_of (fold (\<lambda>(k, v) d. AList.update k v d) xs d) = map_of d ++ map_of (rev xs)"
proof (induction xs arbitrary: d)
  case Nil
  then show ?case by simp
next
  case (Cons x xs)
  obtain k v where x: "x = (k, v)" by (cases x)
  have "map_of (fold (\<lambda>(k, v) d. AList.update k v d) (x # xs) d)
          = map_of (AList.update k v d) ++ map_of (rev xs)"
    using Cons.IH [of "AList.update k v d"] x by simp
  also have "\<dots> = map_of d ++ map_of (rev (x # xs))"
    using x by (auto simp: update_conv' map_add_def fun_eq_iff split: option.splits)
  finally show ?case .
qed

lemma fold_update_keys:
  "fst ` set (fold (\<lambda>(k, v) d. AList.update k v d) xs d) = fst ` set d \<union> fst ` set xs"
proof (induction xs arbitrary: d)
  case Nil
  then show ?case by simp
next
  case (Cons x xs)
  obtain k v where x: "x = (k, v)" by (cases x)
  have "fst ` set (fold (\<lambda>(k, v) d. AList.update k v d) (x # xs) d)
          = fst ` set (AList.update k v d) \<union> fst ` set xs"
    using Cons.IH [of "AList.update k v d"] x by simp
  also have "\<dots> = fst ` set d \<union> fst ` set (x # xs)"
    using x by (auto simp: dom_update)
  finally show ?case .
qed

lemma fold_update_distinct:
  "distinct (map fst d) \<Longrightarrow> distinct (map fst (fold (\<lambda>(k, v) d. AList.update k v d) xs d))"
proof (induction xs arbitrary: d)
  case Nil
  then show ?case by simp
next
  case (Cons x xs)
  obtain k v where x: "x = (k, v)" by (cases x)
  have "distinct (map fst (AList.update k v d))"
    using Cons.prems by (rule distinct_update)
  then show ?case using Cons.IH [of "AList.update k v d"] x by simp
qed

lemma dict_display_map_of:
  assumes "distinct (map fst a)" "distinct (map fst b)"
  shows "map_of (dict_display a b) = map_of a ++ map_of b"
  using assms by (simp add: dict_display_def fold_update_map_of map_of_rev_distinct)

lemma dict_display_keys: "fst ` set (dict_display a b) = fst ` set a \<union> fst ` set b"
  by (auto simp: dict_display_def fold_update_keys)

lemma dict_display_distinct: "distinct (map fst (dict_display a b))"
  by (simp add: dict_display_def fold_update_distinct)

lemma update_fresh: "k \<notin> fst ` set d \<Longrightarrow> AList.update k v d = d @ [(k, v)]"
  by (induction d) auto

lemma update_present:
  "distinct (map fst d) \<Longrightarrow> k \<in> fst ` set d \<Longrightarrow>
     AList.update k v d = map (\<lambda>(k', v'). (k', if k' = k then v else v')) d"
proof (induction d)
  case Nil
  then show ?case by simp
next
  case (Cons p d)
  obtain k' v' where p: "p = (k', v')" by (cases p)
  show ?case
  proof (cases "k' = k")
    case True
    with Cons.prems p have "k \<notin> fst ` set d" by auto
    then have "map (\<lambda>(k', v'). (k', if k' = k then v else v')) d = d"
      by (intro map_idI) force
    with True p show ?thesis by simp
  next
    case False
    with Cons p show ?thesis by auto
  qed
qed


lemma fold_update_new:
  "distinct (map fst (d @ xs)) \<Longrightarrow> fold (\<lambda>(k, v) d. AList.update k v d) xs d = d @ xs"
proof (induction xs arbitrary: d)
  case Nil
  then show ?case by simp
next
  case (Cons x xs)
  obtain k v where x: "x = (k, v)" by (cases x)
  have "AList.update k v d = d @ [(k, v)]"
    using Cons.prems x by (intro update_fresh) auto
  then show ?case using Cons.IH [of "d @ [(k, v)]"] Cons.prems x by simp
qed

lemma fold_update_override:
  "distinct (map fst b) \<Longrightarrow> distinct (map fst a) \<Longrightarrow>
     fold (\<lambda>(k, v) d. AList.update k v d) b a
       = map (override b) a @ filter (\<lambda>item. fst item \<notin> fst ` set a) b"
proof (induction b arbitrary: a)
  case Nil
  then show ?case by (simp add: override_def)
next
  case (Cons x b)
  obtain k v where x: "x = (k, v)" by (cases x)
  from Cons.prems x have kb: "map_of b k = None" and db: "distinct (map fst b)"
    by (auto simp: map_of_eq_None_iff)
  show ?case
  proof (cases "k \<in> fst ` set a")
    case True
    let ?a' = "AList.update k v a"
    have a': "?a' = map (\<lambda>(k', v'). (k', if k' = k then v else v')) a"
      using Cons.prems True by (simp add: update_present)
    have keys: "fst ` set ?a' = fst ` set a" using True by (auto simp: dom_update)
    have da': "distinct (map fst ?a')" using Cons.prems by (simp add: distinct_update)
    have "map (override b) ?a' = map (override (x # b)) a"
      unfolding a' using kb x by (auto simp: override_def split: option.splits)
    then show ?thesis
      using Cons.IH [OF db da'] x True keys by simp
  next
    case False
    let ?a' = "a @ [(k, v)]"
    have a': "AList.update k v a = ?a'" using False by (rule update_fresh)
    have da': "distinct (map fst ?a')" using Cons.prems False by simp
    have m: "map (override b) a = map (override (x # b)) a"
      using False x by (auto simp: override_def split: option.splits)
    have f: "filter (\<lambda>item. fst item \<notin> fst ` set ?a') b = filter (\<lambda>item. fst item \<notin> fst ` set a) b"
      using kb by (intro filter_cong) (auto simp: map_of_eq_None_iff)
    have o: "override b (k, v) = (k, v)" using kb by (simp add: override_def)
    show ?thesis
      using Cons.IH [OF db da'] x False a' m f o by simp
  qed
qed

lemma dict_display_eq:
  assumes "distinct (map fst a)" "distinct (map fst b)"
  shows "dict_display a b = key_union a b"
proof -
  have "fold (\<lambda>(k, v) d. AList.update k v d) a [] = a"
    using assms(1) fold_update_new [of "[]" a] by simp
  then show ?thesis
    using assms by (simp add: dict_display_def fold_update_override key_union_def)
qed

text \<open>
  Claim C4. For a package.json whose top-level value is an object, with the fields
  \<^verbatim>\<open>dependencies\<close> and \<^verbatim>\<open>devDependencies\<close> absent or objects, the parsed
  list is the key-wise union of the two in which devDependencies wins on a shared
  name, every version being the stored value verbatim; blank content and a top-level
  value that is no object give no dependency.
\<close>

theorem package_json_union:
  "(strip content \<noteq> [] \<and> loads content = Inr (JObject items)
      \<and> dict_get items ''dependencies'' (JObject []) = JObject deps
      \<and> dict_get items ''devDependencies'' (JObject []) = JObject dev
      \<and> distinct (map fst deps) \<and> distinct (map fst dev) \<longrightarrow>
      package_json_dependencies loads content
        = Inr (map (\<lambda>(n, v). \<lparr>name = n, version = v\<rparr>) (key_union deps dev))
      \<and> distinct (map fst (key_union deps dev))
      \<and> fst ` set (key_union deps dev) = fst ` set deps \<union> fst ` set dev
      \<and> map_of (key_union deps dev) = map_of deps ++ map_of dev)
   \<and> (strip content = [] \<longrightarrow> package_json_dependencies loads content = Inr [])
   \<and> (loads content = Inr v \<and> (\<forall>its. v \<noteq> JObject its) \<longrightarrow>
        package_json_dependencies loads content = Inr [])"
proof (intro conjI impI)
  assume a: "strip content \<noteq> [] \<and> loads content = Inr (JObject items)
      \<and> dict_get items ''dependencies'' (JObject []) = JObject deps
      \<and> dict_get items ''devDependencies'' (JObject []) = JObject dev
      \<and> distinct (map fst deps) \<and> distinct (map fst dev)"
  then have k: "dict_display deps dev = key_union deps dev"
    by (simp add: dict_display_eq)
  show "package_json_dependencies loads content
        = Inr (map (\<lambda>(n, v). \<lparr>name = n, version = v\<rparr>) (key_union deps dev))"
    using a k by (simp add: package_json_dependencies_def unpack_mapping_def)
  show "distinct (map fst (key_union deps dev))"
    using dict_display_distinct [of deps dev] k by simp
  show "fst ` set (key_union deps dev) = fst ` set deps \<union> fst ` set dev"
    using dict_display_keys [of deps dev] k by simp
  show "map_of (key_union deps dev) = map_of deps ++ map_of dev"
    using a dict_display_map_of [of deps dev] k by simp
next
  assume "strip content = []"
  then show "package_json_dependencies loads content = Inr []"
    by (simp add: package_json_dependencies_def)
next
  assume "loads content = Inr v \<and> (\<forall>its. v \<noteq> JObject its)"
  then show "package_json_dependencies loads content = Inr []"
    by (cases v) (auto simp: package_json_dependencies_def)
qed

text \<open>
  The content \<^verbatim>\<open>{"dependencies":{"a":"1.0.0"},"devDependencies":{"a":"2.0.0"}}\<close> gives
  the one dependency \<open>a\<close> at \<open>2.0.0\<close>; blank content and a JSON list give none.
\<close>

theorem package_json_union_witness:
  "package_json_dependencies example_loads collision_json
     = Inr [\<lparr>name = ''a'', version = JString ''2.0.0''\<rparr>]
   \<and> package_json_dependencies example_loads ''  '' = Inr []
   \<and> package_json_dependencies example_loads ''[1]'' = Inr []"
proof -
  have s1: "strip collision_json \<noteq> []" by code_simp
  have l1: "example_loads collision_json =
              Inr (JObject [(''dependencies'', JObject [(''a'', JString ''1.0.0'')]),
                            (''devDependencies'', JObject [(''a'', JString ''2.0.0'')])])"
    by code_simp
  have g1: "dict_get [(''dependencies'', JObject [(''a'', JString ''1.0.0'')]),
                      (''devDependencies'', JObject [(''a'', JString ''2.0.0'')])]
              ''dependencies'' (JObject []) = JObject [(''a'', JString ''1.0.0'')]"
    by code_simp
  have g2: "dict_get [(''dependencies'', JObject [(''a'', JString ''1.0.0'')]),
                      (''devDependencies'', JObject [(''a'', JString ''2.0.0'')])]
              ''devDependencies'' (JObject []) = JObject [(''a'', JString ''2.0.0'')]"
    by code_simp
  have u: "map (\<lambda>(n, v). \<lparr>name = n, version = v\<rparr>)
             (key_union [(''a'', JString ''1.0.0'')] [(''a'', JString ''2.0.0'')])
           = [\<lparr>name = ''a'', version = JString ''2.0.0''\<rparr>]"
    by code_simp
  have e1: "package_json_dependencies example_loads collision_json
              = Inr [\<lparr>name = ''a'', version = JString ''2.0.0''\<rparr>]"
    using package_json_union [of collision_json example_loads
            "[(''dependencies'', JObject [(''a'', JString ''1.0.0'')]),
              (''devDependencies'', JObject [(''a'', JString ''2.0.0'')])]"
            "[(''a'', JString ''1.0.0'')]" "[(''a'', JString ''2.0.0'')]" JNull] s1 l1 g1 g2
    unfolding u by simp
  have s2: "strip ''  '' = []" by code_simp
  have l3: "example_loads ''[1]'' = Inr (JArray [JNum 1])" by code_simp
  have e2: "package_json_dependencies example_loads ''  '' = Inr []"
    using package_json_union [of "''  ''" example_loads] s2 by simp
  have e3: "package_json_dependencies example_loads ''[1]'' = Inr []"
    using package_json_union [of "''[1]''" example_loads _ _ _ "JArray [JNum 1]"] l3 by simp
  show ?thesis using e1 e2 e3 by simp
qed

text \<open>
  A field \<^verbatim>\<open>dependencies\<close> or \<^verbatim>\<open>devDependencies\<close> that is present and no object
  makes the dict display raise: the handler of line 109 prints it and the file gives
  no dependency.
\<close>

lemma package_json_field_no_mapping:
  assumes "strip content \<noteq> []" and "loads content = Inr (JObject items)"
    and "(\<forall>its. dict_get items ''dependencies'' (JObject []) \<noteq> JObject its)
         \<or> (\<forall>its. dict_get items ''devDependencies'' (JObject []) \<noteq> JObject its)"
  shows "\<exists>e. package_json_dependencies loads content = Inl e"
  using assms
  by (cases "dict_get items ''dependencies'' (JObject [])";
      cases "dict_get items ''devDependencies'' (JObject [])")
     (auto simp: package_json_dependencies_def unpack_mapping_def)

section \<open>Properties of detection\<close>

lemma startswith_iff: "startswith s p \<longleftrightarrow> (\<exists>post. s = p @ post)"
  by (induction s p rule: startswith.induct) auto

lemma str_contains_iff: "str_contains s sub \<longleftrightarrow> (\<exists>pre post. s = pre @ sub @ post)"
proof (induction s)
  case Nil
  then show ?case by auto
next
  case (Cons c cs)
  show ?case
  proof
    assume "str_contains (c # cs) sub"
    then consider "startswith (c # cs) sub" | "str_contains cs sub" by auto
    then show "\<exists>pre post. c # cs = pre @ sub @ post"
    proof cases
      case 1
      then obtain post where "c # cs = sub @ post" by (auto simp: startswith_iff)
      then have "c # cs = [] @ sub @ post" by simp
      then show ?thesis by blast
    next
      case 2
      then obtain pre post where "cs = pre @ sub @ post" using Cons.IH by blast
      then have "c # cs = (c # pre) @ sub @ post" by simp
      then show ?thesis by blast
    qed
  next
    assume "\<exists>pre post. c # cs = pre @ sub @ post"
    then obtain pre post where e: "c # cs = pre @ sub @ post" by blast
    show "str_contains (c # cs) sub"
    proof (cases pre)
      case Nil
      with e have "startswith (c # cs) sub" by (auto simp: startswith_iff)
      then show ?thesis by simp
    next
      case (Cons x pre')
      with e have "cs = pre' @ sub @ post" by simp
      then have "str_contains cs sub" using Cons.IH by blast
      then show ?thesis by simp
    qed
  qed
qed

text \<open>
  So the test of line 52 on a string asks whether some piece of it reads \<^verbatim>\<open>yarn\<close>
  once lowered.
\<close>

lemma map_infix:
  "(\<exists>a c. map f s = a @ sub @ c) \<longleftrightarrow> (\<exists>pre mid post. s = pre @ mid @ post \<and> map f mid = sub)"
proof
  assume "\<exists>a c. map f s = a @ sub @ c"
  then obtain a c where "map f s = a @ sub @ c" by blast
  then have "\<exists>us vs. s = us @ vs \<and> a = map f us \<and> sub @ c = map f vs"
    by (simp only: map_eq_append_conv)
  then obtain pre rest where s: "s = pre @ rest" and r: "sub @ c = map f rest" by blast
  from r have "\<exists>us vs. rest = us @ vs \<and> sub = map f us \<and> c = map f vs"
    by (simp only: append_eq_map_conv)
  then obtain mid post where "rest = mid @ post" "map f mid = sub" by auto
  with s show "\<exists>pre mid post. s = pre @ mid @ post \<and> map f mid = sub" by blast
next
  assume "\<exists>pre mid post. s = pre @ mid @ post \<and> map f mid = sub"
  then obtain pre mid post where "s = pre @ mid @ post" "map f mid = sub" by blast
  then have "map f s = map f pre @ sub @ map f post" by simp
  then show "\<exists>a c. map f s = a @ sub @ c" by blast
qed

lemma contains_ignoring_case:
  "str_contains (lower s) sub \<longleftrightarrow> (\<exists>pre mid post. s = pre @ mid @ post \<and> lower mid = sub)"
  unfolding str_contains_iff lower_def by (rule map_infix)

lemma inspect_package_json_eq:
  "inspect_package_json env p = (if package_manager_field_has_yarn env p then Yarn else Npm)"
  by (auto simp: inspect_package_json_def package_manager_field_has_yarn_def package_manager_is_yarn_def
           split: sum.splits json.splits option.splits)

text \<open>
  Claim C1. For a directory that exists, detection decides by fixed precedence, first
  match winning: yarn.lock gives yarn; else package-lock.json gives npm; else
  package.json gives yarn when its packageManager field holds "yarn" case-insensitively
  and npm otherwise; else the result is unknown (\<open>None\<close>).
\<close>

theorem detect_package_manager_precedence:
  "path_exists env dir = Inr True \<longrightarrow>
     (path_exists env (joinpath dir ''yarn.lock'') = Inr True \<longrightarrow>
        detect_package_manager env dir = Some Yarn)
   \<and> (path_exists env (joinpath dir ''yarn.lock'') = Inr False
      \<and> path_exists env (joinpath dir ''package-lock.json'') = Inr True \<longrightarrow>
        detect_package_manager env dir = Some Npm)
   \<and> (path_exists env (joinpath dir ''yarn.lock'') = Inr False
      \<and> path_exists env (joinpath dir ''package-lock.json'') = Inr False
      \<and> path_exists env (joinpath dir ''package.json'') = Inr True \<longrightarrow>
        detect_package_manager env dir =
          Some (if package_manager_field_has_yarn env (joinpath dir ''package.json'')
                then Yarn else Npm))
   \<and> (path_exists env (joinpath dir ''yarn.lock'') = Inr False
      \<and> path_exists env (joinpath dir ''package-lock.json'') = Inr False
      \<and> path_exists env (joinpath dir ''package.json'') = Inr False \<longrightarrow>
        detect_package_manager env dir = None)"
  by (simp add: detect_package_manager_def inspect_package_json_eq)


theorem detect_package_manager_precedence_witness:
  "detect_package_manager example_env [''tmp'', ''web''] = Some Yarn
   \<and> detect_package_manager example_env [''tmp'', ''api''] = Some Npm
   \<and> detect_package_manager example_env [''tmp'', ''ui''] = Some Yarn
   \<and> detect_package_manager example_env [''tmp'', ''cli''] = Some Npm
   \<and> detect_package_manager example_env [''tmp'', ''docs''] = None"
proof -
  have web: "path_exists example_env [''tmp'', ''web''] = Inr True"
    "path_exists example_env (joinpath [''tmp'', ''web''] ''yarn.lock'') = Inr True"
    "path_exists example_env (joinpath [''tmp'', ''web''] ''package-lock.json'') = Inr True"
    by code_simp+
  have api: "path_exists example_env [''tmp'', ''api''] = Inr True"
    "path_exists example_env (joinpath [''tmp'', ''api''] ''yarn.lock'') = Inr False"
    "path_exists example_env (joinpath [''tmp'', ''api''] ''package-lock.json'') = Inr True"
    by code_simp+
  have ui: "path_exists example_env [''tmp'', ''ui''] = Inr True"
    "path_exists example_env (joinpath [''tmp'', ''ui''] ''yarn.lock'') = Inr False"
    "path_exists example_env (joinpath [''tmp'', ''ui''] ''package-lock.json'') = Inr False"
    "path_exists example_env (joinpath [''tmp'', ''ui''] ''package.json'') = Inr True"
    "package_manager_field_has_yarn example_env (joinpath [''tmp'', ''ui''] ''package.json'')"
    by code_simp+
  have cli: "path_exists example_env [''tmp'', ''cli''] = Inr True"
    "path_exists example_env (joinpath [''tmp'', ''cli''] ''yarn.lock'') = Inr False"
    "path_exists example_env (joinpath [''tmp'', ''cli''] ''package-lock.json'') = Inr False"
    "path_exists example_env (joinpath [''tmp'', ''cli''] ''package.json'') = Inr True"
    "\<not> package_manager_field_has_yarn example_env (joinpath [''tmp'', ''cli''] ''package.json'')"
    by code_simp+
  have docs: "path_exists example_env [''tmp'', ''docs''] = Inr True"
    "path_exists example_env (joinpath [''tmp'', ''docs''] ''yarn.lock'') = Inr False"
    "path_exists example_env (joinpath [''tmp'', ''docs''] ''package-lock.json'') = Inr False"
    "path_exists example_env (joinpath [''tmp'', ''docs''] ''package.json'') = Inr False"
    by code_simp+
  show ?thesis
    using detect_package_manager_precedence [of example_env "[''tmp'', ''web'']"]
      detect_package_manager_precedence [of example_env "[''tmp'', ''api'']"]
      detect_package_manager_precedence [of example_env "[''tmp'', ''ui'']"]
      detect_package_manager_precedence [of example_env "[''tmp'', ''cli'']"]
      detect_package_manager_precedence [of example_env "[''tmp'', ''docs'']"]
    by (simp only: web api ui cli docs) simp
qed

section \<open>Properties of the cache of package managers\<close>

lemma extend_dependencies_cache [simp]:
  "package_managers (extend_dependencies pm new self) = package_managers self"
  by (cases pm) (simp_all add: extend_dependencies_def)

lemma extend_python_cache [simp]:
  "package_managers (extend_python new self) = package_managers self"
  by (simp add: extend_python_def)

lemma parse_package_json_cache [simp]:
  "package_managers (parse_package_json env p pm self) = package_managers self"
  by (simp add: parse_package_json_def split: sum.splits)

lemma parse_yarn_lock_file_cache [simp]:
  "package_managers (parse_yarn_lock_file env p self) = package_managers self"
  by (simp add: parse_yarn_lock_file_def split: sum.splits)

lemma parse_requirements_cache [simp]:
  "package_managers (parse_requirements env p self) = package_managers self"
  by (simp add: parse_requirements_def split: sum.splits)

lemma remember_known [simp]:
  "package_managers self d = Some v \<Longrightarrow> remember_package_manager env d self = self"
  by (simp add: remember_package_manager_def)












text \<open>
  The loop of \<^verbatim>\<open>main\<close> scans each repository that is not excluded on its own, in
  order: every scan starts from a fresh scanner.
\<close>

lemma main_loop_eq:
  "main_loop world excluded repos results =
     results @ map (\<lambda>repo. scan_repository (world repo) (gh_clone_url repo) (gh_name repo))
                 (filter (\<lambda>repo. gh_name repo \<notin> set excluded) repos)"
  by (induction repos arbitrary: results) simp_all






section \<open>The parsers inside parse\_dependencies\<close>

text \<open>
  What the three parsers return is what \<^verbatim>\<open>parse_dependencies\<close> appends: the
  requirements of a python manifest under \<^verbatim>\<open>python\<close>, the names of a yarn.lock
  under \<^verbatim>\<open>yarn\<close> when the directory resolved to yarn, the dependencies of a
  package.json under the resolved manager.
\<close>

lemma extend_dependencies_Nil [simp]: "extend_dependencies pm [] self = self"
  by (cases pm) (simp_all add: extend_dependencies_def)

lemma parse_dependencies_requirements:
  assumes "file_type info = Some ''python''"
    and "read_text env (path info) = Inr content"
  shows "parse_dependencies env info self = extend_python (requirements_dependencies content) self"
  using assms by (simp add: parse_dependencies_def Let_def parse_requirements_def)

lemma parse_dependencies_yarn_lock:
  assumes "file_type info = Some ''npm'' \<or> file_type info = Some ''yarn''"
    and "path_name (path info) = ''yarn.lock''"
    and "package_managers (remember_package_manager env (parent (path info)) self) (parent (path info))
           = Some (Some Yarn)"
    and "read_text env (path info) = Inr content"
  shows "parse_dependencies env info self
           = extend_dependencies Yarn (yarn_lock_dependencies content)
               (remember_package_manager env (parent (path info)) self)"
  using assms by (auto simp: parse_dependencies_def Let_def parse_yarn_lock_file_def)

lemma parse_dependencies_package_json:
  assumes "file_type info = Some ''npm'' \<or> file_type info = Some ''yarn''"
    and "path_name (path info) = ''package.json''"
    and "package_managers (remember_package_manager env (parent (path info)) self) (parent (path info))
           = Some (Some pm)"
    and "read_text env (path info) = Inr content"
    and "package_json_dependencies (json_loads env) content = Inr new"
  shows "parse_dependencies env info self
           = extend_dependencies pm new (remember_package_manager env (parent (path info)) self)"
  using assms by (auto simp: parse_dependencies_def Let_def parse_package_json_def)

section \<open>Properties of the advisory lookup and of the scan\<close>

lemma check_deps_eq:
  "list_all (lookup_returns env) deps \<Longrightarrow>
     check_deps env dep_type deps acc = Inr (acc @ List.map_filter (advisory_match env dep_type) deps)"
proof (induction deps arbitrary: acc)
  case Nil
  then show ?case by (simp add: map_filter_simps)
next
  case (Cons dep deps)
  then show ?case
    by (auto simp: map_filter_simps lookup_returns_def advisory_match_def
             split: sum.splits if_splits)
qed

lemma check_deps_raises:
  "advisories env (name dep) = Inl e \<Longrightarrow> check_deps env dep_type (dep # deps) acc = Inl e"
  by simp

lemma check_items_eq:
  "list_all (lookup_returns env) (concat (map snd items)) \<Longrightarrow>
     check_items env items acc
       = Inr (acc @ concat (map (\<lambda>(dep_type, deps). List.map_filter (advisory_match env dep_type) deps) items))"
proof (induction items arbitrary: acc)
  case Nil
  then show ?case by simp
next
  case (Cons item items)
  obtain dep_type deps where i: "item = (dep_type, deps)" by (cases item)
  show ?case using Cons i
    by (auto simp: check_deps_eq map_filter_simps)
qed

lemma check_vulnerabilities_eq:
  "list_all (lookup_returns env) (all_dependencies self) \<Longrightarrow>
     check_vulnerabilities env self = Inr (expected_matches env self)"
  using check_items_eq [of env "dependency_items (dependencies self)" "[]"]
  by (simp add: check_vulnerabilities_def dependency_items_def all_dependencies_def
        expected_matches_def del: check_items.simps)

lemma advisory_match_success:
  "advisory_match env dep_type dep = Some v \<Longrightarrow>
     \<exists>r j. advisories env (name dep) = Inr r \<and> status_code r = 200 \<and> body r = Inr j \<and> truthy j
          \<and> vuln_dependency v = name dep"
  by (auto simp: advisory_match_def split: sum.splits if_splits)

lemma in_set_map_filter:
  "v \<in> set (List.map_filter f xs) \<longleftrightarrow> (\<exists>x \<in> set xs. f x = Some v)"
  by (induction xs) (auto simp: map_filter_simps split: option.splits)

lemma expected_matches_success:
  "v \<in> set (expected_matches env self) \<Longrightarrow>
     \<exists>r j. advisories env (vuln_dependency v) = Inr r \<and> status_code r = 200 \<and> body r = Inr j \<and> truthy j"
  by (auto simp: expected_matches_def in_set_map_filter dest!: advisory_match_success)

lemma scan_stages_clone_fails:
  "clone_from env url (temp_dir env) = Some e \<Longrightarrow> scan_stages env url nm = Inl e"
  by (simp add: scan_stages_def clone_repository_def DependencyScanner_init_def)

lemma scan_stages_cloned:
  "clone_from env url (temp_dir env) = None \<Longrightarrow>
     scan_stages env url nm =
       (case rglob env (temp_dir env) of
          Inl e \<Rightarrow> Inl e
        | Inr paths \<Rightarrow>
            (case find_dependency_files env ((DependencyScanner_init url nm)\<lparr>repo_path := Some (temp_dir env)\<rparr>) of
               Inl e \<Rightarrow> Inl e
             | Inr dependency_files \<Rightarrow>
                 (case check_vulnerabilities env (parsed_scanner env url nm dependency_files) of
                    Inl e \<Rightarrow> Inl e
                  | Inr vulnerabilities \<Rightarrow>
                      Inr (dependencies (parsed_scanner env url nm dependency_files), vulnerabilities))))"
  by (simp add: scan_stages_def clone_repository_def DependencyScanner_init_def
        find_dependency_files_def parsed_scanner_def Let_def split: sum.splits)

lemma scan_repository_repo_name:
  "map_of (scan_repository env url nm) ''repo_name'' = Some (RString nm)"
proof (cases "scan_stages env url nm")
  case (Inl e)
  then show ?thesis by (cases e) (simp add: scan_repository_def)
next
  case (Inr r)
  then show ?thesis by (cases r) (simp add: scan_repository_def)
qed

lemma scan_repository_error:
  "scan_stages env url nm = Inl (Error msg) \<Longrightarrow>
     scan_repository env url nm = [(''repo_name'', RString nm), (''error'', RString msg)]"
  by (simp add: scan_repository_def)

text \<open>
  Claim C8. When a stage of a repository's scan raises (the clone, the discovery or
  the advisory lookup), \<^verbatim>\<open>scan_repository\<close> returns the dict with exactly the keys
  \<^verbatim>\<open>repo_name\<close> and \<^verbatim>\<open>error\<close>; it always returns a dict, so nothing reaches the
  loop of \<^verbatim>\<open>main\<close>, whose results hold one entry for every repository that is not
  excluded, in order, whatever the outcome of the others.
\<close>

theorem scan_error_absorbed:
  "(scan_stages env url nm = Inl (Error msg) \<longrightarrow>
      scan_repository env url nm = [(''repo_name'', RString nm), (''error'', RString msg)])
   \<and> (clone_from env url (temp_dir env) = Some (Error msg) \<longrightarrow>
      scan_repository env url nm = [(''repo_name'', RString nm), (''error'', RString msg)])
   \<and> (clone_from env url (temp_dir env) = None \<and> rglob env (temp_dir env) = Inl (Error msg) \<longrightarrow>
      scan_repository env url nm = [(''repo_name'', RString nm), (''error'', RString msg)])
   \<and> (clone_from env url (temp_dir env) = None
        \<and> find_dependency_files env ((DependencyScanner_init url nm)\<lparr>repo_path := Some (temp_dir env)\<rparr>)
            = Inr dependency_files
        \<and> check_vulnerabilities env (parsed_scanner env url nm dependency_files) = Inl (Error msg) \<longrightarrow>
      scan_repository env url nm = [(''repo_name'', RString nm), (''error'', RString msg)])
   \<and> map (\<lambda>r. map_of r ''repo_name'') (main_loop world excluded repos [])
       = map (\<lambda>repo. Some (RString (gh_name repo)))
           (filter (\<lambda>repo. gh_name repo \<notin> set excluded) repos)"
proof (intro conjI impI)
  assume "scan_stages env url nm = Inl (Error msg)"
  then show "scan_repository env url nm = [(''repo_name'', RString nm), (''error'', RString msg)]"
    by (rule scan_repository_error)
next
  assume "clone_from env url (temp_dir env) = Some (Error msg)"
  then have "scan_stages env url nm = Inl (Error msg)" by (rule scan_stages_clone_fails)
  then show "scan_repository env url nm = [(''repo_name'', RString nm), (''error'', RString msg)]"
    by (rule scan_repository_error)
next
  assume "clone_from env url (temp_dir env) = None \<and> rglob env (temp_dir env) = Inl (Error msg)"
  then have "scan_stages env url nm = Inl (Error msg)" by (simp add: scan_stages_cloned)
  then show "scan_repository env url nm = [(''repo_name'', RString nm), (''error'', RString msg)]"
    by (rule scan_repository_error)
next
  assume a: "clone_from env url (temp_dir env) = None
        \<and> find_dependency_files env ((DependencyScanner_init url nm)\<lparr>repo_path := Some (temp_dir env)\<rparr>)
            = Inr dependency_files
        \<and> check_vulnerabilities env (parsed_scanner env url nm dependency_files) = Inl (Error msg)"
  then have "scan_stages env url nm = Inl (Error msg)"
    by (auto simp: scan_stages_cloned find_dependency_files_def split: sum.splits)
  then show "scan_repository env url nm = [(''repo_name'', RString nm), (''error'', RString msg)]"
    by (rule scan_repository_error)
next
  show "map (\<lambda>r. map_of r ''repo_name'') (main_loop world excluded repos [])
       = map (\<lambda>repo. Some (RString (gh_name repo)))
           (filter (\<lambda>repo. gh_name repo \<notin> set excluded) repos)"
    by (simp add: main_loop_eq comp_def scan_repository_repo_name)
qed

text \<open>
  Of the repositories \<open>broken\<close>, \<open>skipped\<close> and \<open>good\<close>, the first fails to clone
  and the second is excluded: the results are an error entry and a full entry.
\<close>

theorem scan_error_absorbed_witness:
  "scan_repository failing_clone_env ''https://example.org/broken.git'' ''broken''
     = [(''repo_name'', RString ''broken''), (''error'', RString ''repository not found'')]
   \<and> map (\<lambda>r. map_of r ''repo_name'') (main_loop example_world [''skipped''] example_repos [])
       = [Some (RString ''broken''), Some (RString ''good'')]
   \<and> map (map fst) (main_loop example_world [''skipped''] example_repos [])
       = [[''repo_name'', ''error''], [''repo_name'', ''dependencies'', ''vulnerabilities'']]"
proof -
  have c: "clone_from failing_clone_env ''https://example.org/broken.git'' (temp_dir failing_clone_env)
             = Some (Error ''repository not found'')"
    by (simp add: failing_clone_env_def)
  have f: "map (\<lambda>repo. Some (RString (gh_name repo)))
             (filter (\<lambda>repo. gh_name repo \<notin> set [''skipped'']) example_repos)
           = [Some (RString ''broken''), Some (RString ''good'')]"
    by (simp add: example_repos_def)
  have k: "map (map fst) (main_loop example_world [''skipped''] example_repos [])
             = [[''repo_name'', ''error''], [''repo_name'', ''dependencies'', ''vulnerabilities'']]"
    by code_simp
  note t = scan_error_absorbed [where env = failing_clone_env
      and url = "''https://example.org/broken.git''" and nm = "''broken''"
      and msg = "''repository not found''" and world = example_world
      and excluded = "[''skipped'']" and repos = example_repos]
  have a: "scan_repository failing_clone_env ''https://example.org/broken.git'' ''broken''
     = [(''repo_name'', RString ''broken''), (''error'', RString ''repository not found'')]"
    using t c by blast
  have b: "map (\<lambda>r. map_of r ''repo_name'') (main_loop example_world [''skipped''] example_repos [])
       = [Some (RString ''broken''), Some (RString ''good'')]"
    using t unfolding f by blast
  show ?thesis using a b k by blast
qed

text \<open>
  When the request for some dependency raises, or a 200 response has a body that does
  not decode, the lookup raises and the scan ends with the \<^verbatim>\<open>error\<close> entry.
\<close>

lemma check_deps_fails:
  "\<not> list_all (lookup_returns env) deps \<Longrightarrow> \<exists>e. check_deps env dep_type deps acc = Inl e"
proof (induction deps arbitrary: acc)
  case Nil
  then show ?case by simp
next
  case (Cons dep deps)
  show ?case
  proof (cases "lookup_returns env dep")
    case True
    with Cons.prems have "\<not> list_all (lookup_returns env) deps" by simp
    then have "\<And>acc. \<exists>e. check_deps env dep_type deps acc = Inl e" by (rule Cons.IH)
    then show ?thesis
      using True by (auto simp: lookup_returns_def split: sum.splits if_splits)
  next
    case False
    then show ?thesis
      by (auto simp: lookup_returns_def split: sum.splits if_splits)
  qed
qed

lemma check_items_fails:
  "\<not> list_all (lookup_returns env) (concat (map snd items)) \<Longrightarrow>
     \<exists>e. check_items env items acc = Inl e"
proof (induction items arbitrary: acc)
  case Nil
  then show ?case by simp
next
  case (Cons item items)
  obtain dep_type deps where i: "item = (dep_type, deps)" by (cases item)
  show ?case
  proof (cases "list_all (lookup_returns env) deps")
    case True
    with Cons.prems i have "\<not> list_all (lookup_returns env) (concat (map snd items))" by simp
    then have "\<And>acc. \<exists>e. check_items env items acc = Inl e" by (rule Cons.IH)
    then show ?thesis using True i by (simp add: check_deps_eq)
  next
    case False
    then have "deps \<noteq> []" by auto
    moreover obtain e where "check_deps env dep_type deps acc = Inl e"
      using check_deps_fails [OF False] by blast
    ultimately show ?thesis using i by simp
  qed
qed

lemma check_vulnerabilities_fails:
  "\<not> list_all (lookup_returns env) (all_dependencies self) \<Longrightarrow>
     \<exists>e. check_vulnerabilities env self = Inl e"
  using check_items_fails [of env "dependency_items (dependencies self)" "[]"]
  by (simp add: check_vulnerabilities_def dependency_items_def all_dependencies_def
        del: check_items.simps)

lemma scan_repository_lookup_fails:
  assumes "clone_from env url (temp_dir env) = None"
    and "find_dependency_files env ((DependencyScanner_init url nm)\<lparr>repo_path := Some (temp_dir env)\<rparr>)
            = Inr dependency_files"
    and "\<not> list_all (lookup_returns env) (all_dependencies (parsed_scanner env url nm dependency_files))"
  shows "\<exists>msg. scan_repository env url nm = [(''repo_name'', RString nm), (''error'', RString msg)]"
proof -
  obtain e where "check_vulnerabilities env (parsed_scanner env url nm dependency_files) = Inl e"
    using check_vulnerabilities_fails [OF assms(3)] by blast
  with assms(1,2) have "scan_stages env url nm = Inl e"
    by (auto simp: scan_stages_cloned find_dependency_files_def split: sum.splits)
  then show ?thesis by (cases e) (simp add: scan_repository_error)
qed

text \<open>
  Claim C9, amended. A response whose status is not 200 is treated as absence of
  advisory data: the matches are exactly those of the dependencies answered with 200
  and a non-empty body, so no match carries the name of a dependency answered
  otherwise; and when every request returns a response (a 200 one with a body that
  decodes), the lookup raises nothing and the scan of a cloned and listed repository
  succeeds with these matches. When some request raises instead, the scan ends with
  the \<^verbatim>\<open>error\<close> entry.
\<close>

theorem advisory_non_success_absent:
  "(list_all (lookup_returns env) (all_dependencies self) \<longrightarrow>
      check_vulnerabilities env self = Inr (expected_matches env self))
   \<and> (\<forall>v \<in> set (expected_matches env self).
        \<exists>r j. advisories env (vuln_dependency v) = Inr r \<and> status_code r = 200
             \<and> body r = Inr j \<and> truthy j)
   \<and> (\<forall>dep r. advisories env (name dep) = Inr r \<and> status_code r \<noteq> 200 \<longrightarrow>
        name dep \<notin> vuln_dependency ` set (expected_matches env self))
   \<and> (clone_from env url (temp_dir env) = None
        \<and> find_dependency_files env ((DependencyScanner_init url nm)\<lparr>repo_path := Some (temp_dir env)\<rparr>)
            = Inr dependency_files
        \<and> list_all (lookup_returns env) (all_dependencies (parsed_scanner env url nm dependency_files)) \<longrightarrow>
      scan_repository env url nm =
        [(''repo_name'', RString nm),
         (''dependencies'', RDependencies (dependencies (parsed_scanner env url nm dependency_files))),
         (''vulnerabilities'',
            RVulnerabilities (expected_matches env (parsed_scanner env url nm dependency_files)))])
   \<and> (clone_from env url (temp_dir env) = None
        \<and> find_dependency_files env ((DependencyScanner_init url nm)\<lparr>repo_path := Some (temp_dir env)\<rparr>)
            = Inr dependency_files
        \<and> \<not> list_all (lookup_returns env) (all_dependencies (parsed_scanner env url nm dependency_files)) \<longrightarrow>
      (\<exists>msg. scan_repository env url nm = [(''repo_name'', RString nm), (''error'', RString msg)]))"
proof (intro conjI impI ballI allI)
  assume "list_all (lookup_returns env) (all_dependencies self)"
  then show "check_vulnerabilities env self = Inr (expected_matches env self)"
    by (rule check_vulnerabilities_eq)
next
  fix v assume "v \<in> set (expected_matches env self)"
  then show "\<exists>r j. advisories env (vuln_dependency v) = Inr r \<and> status_code r = 200
             \<and> body r = Inr j \<and> truthy j"
    by (rule expected_matches_success)
next
  fix dep r assume a: "advisories env (name dep) = Inr r \<and> status_code r \<noteq> 200"
  show "name dep \<notin> vuln_dependency ` set (expected_matches env self)"
  proof
    assume "name dep \<in> vuln_dependency ` set (expected_matches env self)"
    then obtain v where "v \<in> set (expected_matches env self)" "vuln_dependency v = name dep"
      by auto
    then show False using expected_matches_success [of v env self] a by auto
  qed
next
  assume a: "clone_from env url (temp_dir env) = None
        \<and> find_dependency_files env ((DependencyScanner_init url nm)\<lparr>repo_path := Some (temp_dir env)\<rparr>)
            = Inr dependency_files
        \<and> list_all (lookup_returns env) (all_dependencies (parsed_scanner env url nm dependency_files))"
  then have "check_vulnerabilities env (parsed_scanner env url nm dependency_files)
               = Inr (expected_matches env (parsed_scanner env url nm dependency_files))"
    by (simp add: check_vulnerabilities_eq)
  with a have "scan_stages env url nm =
      Inr (dependencies (parsed_scanner env url nm dependency_files),
           expected_matches env (parsed_scanner env url nm dependency_files))"
    by (auto simp: scan_stages_cloned find_dependency_files_def split: sum.splits)
  then show "scan_repository env url nm =
        [(''repo_name'', RString nm),
         (''dependencies'', RDependencies (dependencies (parsed_scanner env url nm dependency_files))),
         (''vulnerabilities'',
            RVulnerabilities (expected_matches env (parsed_scanner env url nm dependency_files)))]"
    by (simp add: scan_repository_def)
next
  assume "clone_from env url (temp_dir env) = None
        \<and> find_dependency_files env ((DependencyScanner_init url nm)\<lparr>repo_path := Some (temp_dir env)\<rparr>)
            = Inr dependency_files
        \<and> \<not> list_all (lookup_returns env) (all_dependencies (parsed_scanner env url nm dependency_files))"
  then show "\<exists>msg. scan_repository env url nm = [(''repo_name'', RString nm), (''error'', RString msg)]"
    using scan_repository_lookup_fails [of env url nm dependency_files] by blast
qed

text \<open>
  In the example tree \<open>flask\<close> is answered 404 and \<open>requests==2.0\<close> 503: neither
  gets a match, the scan succeeds and reports the advisory for \<open>lodash\<close> only.
\<close>

theorem advisory_non_success_absent_witness:
  "example_lookup ''flask'' = Inr \<lparr>status_code = 404, body = Inl (Error ''Expecting value'')\<rparr>
   \<and> \<lparr>name = ''flask'', version = JString ''unknown''\<rparr>
        \<in> set (all_dependencies (parsed_scanner example_env good_url ''good'' example_files))
   \<and> ''flask'' \<notin> vuln_dependency ` set (expected_matches example_env
                     (parsed_scanner example_env good_url ''good'' example_files))
   \<and> check_vulnerabilities example_env (parsed_scanner example_env good_url ''good'' example_files)
       = Inr [lodash_match]
   \<and> map_of (scan_repository example_env good_url ''good'') ''vulnerabilities''
       = Some (RVulnerabilities [lodash_match])
   \<and> map_of (scan_repository example_env good_url ''good'') ''error'' = None
   \<and> map fst (scan_repository unreachable_env good_url ''good'') = [''repo_name'', ''error'']"
proof -
  let ?s = "parsed_scanner example_env good_url ''good'' example_files"
  have c: "clone_from example_env good_url (temp_dir example_env) = None"
    by code_simp
  have f: "find_dependency_files example_env
             ((DependencyScanner_init good_url ''good'')\<lparr>repo_path := Some (temp_dir example_env)\<rparr>)
           = Inr example_files"
    by code_simp
  have l: "list_all (lookup_returns example_env) (all_dependencies ?s)"
    by code_simp
  have m: "expected_matches example_env ?s = [lodash_match]"
    by code_simp
  have d: "\<lparr>name = ''flask'', version = JString ''unknown''\<rparr> \<in> set (all_dependencies ?s)"
    by code_simp
  have q: "advisories example_env (name \<lparr>name = ''flask'', version = JString ''unknown''\<rparr>)
             = Inr \<lparr>status_code = 404, body = Inl (Error ''Expecting value'')\<rparr>"
    "status_code \<lparr>status_code = 404, body = Inl (Error ''Expecting value'')\<rparr> \<noteq> 200"
    "example_lookup ''flask'' = Inr \<lparr>status_code = 404, body = Inl (Error ''Expecting value'')\<rparr>"
    by code_simp+
  note t = advisory_non_success_absent [where env = example_env and self = ?s and url = good_url
      and nm = "''good''" and dependency_files = example_files]
  have v: "check_vulnerabilities example_env ?s = Inr [lodash_match]"
    using t l unfolding m by blast
  have n: "name \<lparr>name = ''flask'', version = JString ''unknown''\<rparr>
             \<notin> vuln_dependency ` set (expected_matches example_env ?s)"
    using t q(1,2) by blast
  have r: "scan_repository example_env good_url ''good'' =
        [(''repo_name'', RString ''good''),
         (''dependencies'', RDependencies (dependencies ?s)),
         (''vulnerabilities'', RVulnerabilities [lodash_match])]"
    using t c f l unfolding m by blast
  have uc: "clone_from unreachable_env good_url (temp_dir unreachable_env) = None"
    by code_simp
  have uf: "find_dependency_files unreachable_env
             ((DependencyScanner_init good_url ''good'')\<lparr>repo_path := Some (temp_dir unreachable_env)\<rparr>)
           = Inr example_files"
    by code_simp
  have ul: "\<not> list_all (lookup_returns unreachable_env)
              (all_dependencies (parsed_scanner unreachable_env good_url ''good'' example_files))"
    by code_simp
  have "\<exists>msg. scan_repository unreachable_env good_url ''good''
               = [(''repo_name'', RString ''good''), (''error'', RString msg)]"
    using advisory_non_success_absent [where env = unreachable_env and url = good_url
        and nm = "''good''" and dependency_files = example_files] uc uf ul
    by blast
  then have x: "map fst (scan_repository unreachable_env good_url ''good'') = [''repo_name'', ''error'']"
    by auto
  show ?thesis using q(3) d n v r x by simp
qed

text \<open>
  Claim C9 as stated fails: a request that raises is a failure of the lookup, it is
  caught only at line 281, and the scan ends with the \<^verbatim>\<open>error\<close> entry.
\<close>

theorem advisory_exception_counterexample:
  "advisories unreachable_env ''a'' = Inl (Error ''Connection refused'')
   \<and> scan_repository unreachable_env good_url ''good''
       = [(''repo_name'', RString ''good''), (''error'', RString ''Connection refused'')]"
  by code_simp

end
